theory Spec2Isabelle
  imports Complex_Main
begin

section \<open>JavaScript strings and platform values\<close>

text \<open>
  A JavaScript string is a sequence of UTF-16 code units; a code unit is modelled as a
  natural number, so that \<open>length\<close>, \<open>slice\<close> and \<open>trim\<close> count what the source
  counts. String literals of the source are written \<open>js ''...''\<close>.
\<close>

type_synonym jsstring = "nat list"

definition js :: "string \<Rightarrow> jsstring" where
  "js s = map of_char s"

text \<open>
  \<open>String.prototype.trim\<close> strips the code units of WhiteSpace and LineTerminator
  (ECMA-262) from both ends.
\<close>

definition isWhiteSpace :: "nat \<Rightarrow> bool" where
  "isWhiteSpace c \<longleftrightarrow>
     c \<in> set [9, 10, 11, 12, 13, 32, 160, 5760, 8232, 8233, 8239, 8287, 12288, 65279]
     \<or> (8192 \<le> c \<and> c \<le> 8202)"

definition trim :: "jsstring \<Rightarrow> jsstring" where
  "trim s = rev (dropWhile isWhiteSpace (rev (dropWhile isWhiteSpace s)))"

text \<open>The regular-expression class \<open>\d\<close>: the ASCII digits.\<close>

definition isDigit :: "nat \<Rightarrow> bool" where
  "isDigit c \<longleftrightarrow> 48 \<le> c \<and> c \<le> 57"

text \<open>\<open>Number(s)\<close> on a string of ASCII digits: its decimal value.\<close>

definition Number_digits :: "jsstring \<Rightarrow> int" where
  "Number_digits s = foldl (\<lambda>acc c. acc * 10 + (int c - 48)) 0 s"

text \<open>\<open>String(n)\<close> on an integer: its decimal digits, with a minus sign below zero.\<close>

fun String_num :: "nat \<Rightarrow> jsstring" where
  "String_num n = (if n < 10 then [48 + n] else String_num (n div 10) @ [48 + n mod 10])"

declare String_num.simps [simp del]

definition String_int :: "int \<Rightarrow> jsstring" where
  "String_int i = (if i < 0 then 45 # String_num (nat (- i)) else String_num (nat i))"

text \<open>\<open>s.padStart(n, pad)\<close>: \<open>pad\<close> repeated and cut to the missing length, in front.\<close>

definition padStart :: "nat \<Rightarrow> jsstring \<Rightarrow> jsstring \<Rightarrow> jsstring" where
  "padStart n pad s =
     (if n \<le> length s \<or> pad = [] then s
      else take (n - length s) (concat (replicate (n - length s) pad)) @ s)"

text \<open>
  The remainder operator \<open>%\<close> of JavaScript truncates: the result has the sign of the
  dividend.
\<close>

definition js_rem :: "int \<Rightarrow> int \<Rightarrow> int" where
  "js_rem a b = sgn a * (\<bar>a\<bar> mod \<bar>b\<bar>)"

text \<open>
  What is thrown: the error classes the code meets, each with its message
  (\<open>e.message\<close>).
\<close>

datatype jserror =
    RangeError jsstring
  | TypeError jsstring
  | SyntaxError jsstring
  | Error jsstring

fun message :: "jserror \<Rightarrow> jsstring" where
  "message (RangeError m) = m"
| "message (TypeError m) = m"
| "message (SyntaxError m) = m"
| "message (Error m) = m"

section \<open>Time arithmetic (page.tsx)\<close>

text \<open>
  \<open>new Intl.DateTimeFormat("en-US", {timeZone, hour: "2-digit", minute: "2-digit",
  hour12: false}).formatToParts(new Date())\<close> belongs to the platform and reads the clock. It
  is a parameter of the model: for each zone string, at the instant considered, either
  the parts it returns or the error it throws (a \<open>RangeError\<close> for a string that names
  no time zone). Passing the same formatter to two calls holds the instant fixed.
\<close>

datatype part = Part (part_type: jsstring) (part_value: jsstring)

type_synonym formatter = "jsstring \<Rightarrow> jserror + part list"

definition nowHHMMInTimeZone :: "formatter \<Rightarrow> jsstring \<Rightarrow> jserror + jsstring" where
  "nowHHMMInTimeZone formatToParts timezone =
     (case formatToParts timezone of
        Inl e \<Rightarrow> Inl e
      | Inr parts \<Rightarrow>
          (let hh = (case find (\<lambda>p. part_type p = js ''hour'') parts of
                       Some p \<Rightarrow> part_value p | None \<Rightarrow> js ''00'');
               mm = (case find (\<lambda>p. part_type p = js ''minute'') parts of
                       Some p \<Rightarrow> part_value p | None \<Rightarrow> js ''00'')
           in Inr (hh @ js '':'' @ mm)))"

text \<open>
  The regular expression \<open>/^(\d{2}):(\d{2})$/\<close>: exactly two digits, a colon, two
  digits; the result holds the two groups.
\<close>

fun match_HHMM :: "jsstring \<Rightarrow> (jsstring \<times> jsstring) option" where
  "match_HHMM [a, b, c, d, e] =
     (if isDigit a \<and> isDigit b \<and> c = 58 \<and> isDigit d \<and> isDigit e
      then Some ([a, b], [d, e]) else None)"
| "match_HHMM _ = None"

record hhmm =
  hh :: int
  mm :: int

definition parseHHMM :: "jsstring \<Rightarrow> hhmm option" where
  "parseHHMM s =
     (case match_HHMM (trim s) of
        None \<Rightarrow> None
      | Some (m1, m2) \<Rightarrow>
          (let h = Number_digits m1; m = Number_digits m2
           in if h < 0 \<or> h > 23 \<or> m < 0 \<or> m > 59 then None
              else Some \<lparr>hh = h, mm = m\<rparr>))"

definition minutesOfDay :: "int \<Rightarrow> int \<Rightarrow> int" where
  "minutesOfDay h m = h * 60 + m"

definition hhmmToMinutes :: "jsstring \<Rightarrow> int option" where
  "hhmmToMinutes s =
     (case parseHHMM s of None \<Rightarrow> None | Some p \<Rightarrow> Some (minutesOfDay (hh p) (mm p)))"

definition addMinutesHHMMInTimeZone ::
  "formatter \<Rightarrow> jsstring \<Rightarrow> int \<Rightarrow> jserror + jsstring" where
  "addMinutesHHMMInTimeZone formatToParts timezone minutesToAdd =
     (case nowHHMMInTimeZone formatToParts timezone of
        Inl e \<Rightarrow> Inl e
      | Inr base \<Rightarrow>
          (case parseHHMM base of
             None \<Rightarrow> Inr base
           | Some p \<Rightarrow>
               (let total0 = minutesOfDay (hh p) (mm p) + minutesToAdd;
                    total = js_rem (js_rem total0 1440 + 1440) 1440;
                    h = padStart 2 (js ''0'') (String_int (total div 60));
                    m = padStart 2 (js ''0'') (String_int (js_rem total 60))
                in Inr (h @ js '':'' @ m))))"

definition minutesUntilSend ::
  "formatter \<Rightarrow> jsstring \<Rightarrow> jsstring \<Rightarrow> jserror + int option" where
  "minutesUntilSend formatToParts timezone preferredHHMM =
     (case nowHHMMInTimeZone formatToParts timezone of
        Inl e \<Rightarrow> Inl e
      | Inr nowStr \<Rightarrow>
          (case (parseHHMM nowStr, parseHHMM preferredHHMM) of
             (Some nowP, Some prefP) \<Rightarrow>
               (let nowMin = minutesOfDay (hh nowP) (mm nowP);
                    prefMin = minutesOfDay (hh prefP) (mm prefP)
                in if prefMin \<ge> nowMin then Inr (Some (prefMin - nowMin))
                   else Inr (Some ((1440 - nowMin) + prefMin)))
           | _ \<Rightarrow> Inr None))"

definition isAtLeastMinutesAhead ::
  "formatter \<Rightarrow> jsstring \<Rightarrow> jsstring \<Rightarrow> int \<Rightarrow> jserror + bool" where
  "isAtLeastMinutesAhead formatToParts timezone preferredHHMM minAhead =
     (case minutesUntilSend formatToParts timezone preferredHHMM of
        Inl e \<Rightarrow> Inl e
      | Inr diff \<Rightarrow> Inr (case diff of None \<Rightarrow> False | Some d \<Rightarrow> d \<ge> minAhead))"

definition MIN_AHEAD_MINUTES :: int where
  "MIN_AHEAD_MINUTES = 2"

text \<open>
  A concrete clock for evaluating the definitions: a platform that knows the zone
  \<open>UTC\<close> only, read at the wall-clock time given as two strings.
\<close>

definition utc_clock :: "jsstring \<Rightarrow> jsstring \<Rightarrow> formatter" where
  "utc_clock h m timezone =
     (if timezone = js ''UTC''
      then Inr [Part (js ''hour'') h, Part (js ''literal'') (js '':''), Part (js ''minute'') m]
      else Inl (RangeError (js ''Invalid time zone specified: '' @ timezone)))"

section \<open>The draft and its city list (page.tsx)\<close>

text \<open>
  \<open>String.prototype.toLowerCase\<close> follows the Unicode case tables of the platform. It is
  a parameter \<open>toLowerCase\<close> of everything that calls it, so that what is proved holds
  for whatever the platform's mapping is.

  \<open>clampCities\<close> is the loop of the source, with its \<open>seen\<close> set and its \<open>out\<close>
  array. An element of the array may be \<open>undefined\<close> or \<open>null\<close> (\<open>None\<close>): the
  source reads every element through \<open>raw ?? ""\<close>.
\<close>

definition nullish_str :: "jsstring option \<Rightarrow> jsstring" where
  "nullish_str raw = (case raw of None \<Rightarrow> [] | Some s \<Rightarrow> s)"

fun clampCities_loop ::
  "(jsstring \<Rightarrow> jsstring) \<Rightarrow> jsstring option list \<Rightarrow> jsstring set \<Rightarrow> jsstring list
    \<Rightarrow> jsstring list" where
  "clampCities_loop toLowerCase [] seen out = out"
| "clampCities_loop toLowerCase (raw # arr) seen out =
     (let v = trim (nullish_str raw) in
      if v = [] then clampCities_loop toLowerCase arr seen out
      else let key = toLowerCase v in
        if key \<in> seen then clampCities_loop toLowerCase arr seen out
        else clampCities_loop toLowerCase arr (insert key seen) (out @ [v]))"

definition clampCities :: "(jsstring \<Rightarrow> jsstring) \<Rightarrow> jsstring option list \<Rightarrow> jsstring list" where
  "clampCities toLowerCase arr = take 10 (clampCities_loop toLowerCase arr {} [])"

text \<open>
  The sanitation rule in the words of the specification, to compare \<open>clampCities\<close>
  with: trim each entry, drop the entries that became empty, drop every entry whose
  lowercase form was seen before (the first occurrence stays, where it is and as it is
  written), keep the first ten.
\<close>

fun drop_seen :: "('a \<Rightarrow> 'b) \<Rightarrow> 'a list \<Rightarrow> 'a list" where
  "drop_seen f [] = []"
| "drop_seen f (x # xs) = x # drop_seen f (filter (\<lambda>y. f y \<noteq> f x) xs)"

definition sanitized_cities :: "(jsstring \<Rightarrow> jsstring) \<Rightarrow> jsstring list \<Rightarrow> jsstring list" where
  "sanitized_cities toLowerCase arr =
     take 10 (drop_seen toLowerCase (filter (\<lambda>v. v \<noteq> []) (map trim arr)))"

text \<open>The entries \<open>clampCities\<close> looks at: trimmed and not empty.\<close>

definition entries :: "jsstring option list \<Rightarrow> jsstring list" where
  "entries arr = filter (\<lambda>v. v \<noteq> []) (map (\<lambda>raw. trim (nullish_str raw)) arr)"

text \<open>The invariant of the city list: at most ten, none blank, no two alike up to case.\<close>

definition cities_ok :: "(jsstring \<Rightarrow> jsstring) \<Rightarrow> jsstring list \<Rightarrow> bool" where
  "cities_ok toLowerCase cs \<longleftrightarrow>
     length cs \<le> 10 \<and> (\<forall>c \<in> set cs. trim c \<noteq> []) \<and> distinct (map toLowerCase cs)"

text \<open>
  A lowercase mapping to evaluate examples with: the platform's mapping on strings of
  ASCII code units.
\<close>

definition ascii_lower :: "jsstring \<Rightarrow> jsstring" where
  "ascii_lower s = map (\<lambda>c. if 65 \<le> c \<and> c \<le> 90 then c + 32 else c) s"

datatype units = metric | imperial

record draft =
  email :: jsstring
  timezone :: jsstring
  preferred_time :: jsstring
  units :: units
  cities :: "jsstring list"
  is_active :: bool

text \<open>
  The initial state of \<open>useState\<close>: \<open>detectedTz\<close> is what the platform reports (or
  \<open>"UTC"\<close>); reading the clock in it may throw.
\<close>

definition initialDraft :: "formatter \<Rightarrow> jsstring \<Rightarrow> jserror + draft" where
  "initialDraft formatToParts detectedTz =
     (case nowHHMMInTimeZone formatToParts detectedTz of
        Inl e \<Rightarrow> Inl e
      | Inr t \<Rightarrow>
          Inr \<lparr>email = [], timezone = detectedTz, preferred_time = t, units = metric,
               cities = [js ''London''], is_active = True\<rparr>)"

text \<open>
  The handlers change the draft through \<open>setDraft(d => ...)\<close>. Each is the function it
  passes, on the draft, with the variables of its closure (\<open>cityInput\<close>,
  \<open>editingIndex\<close>, \<open>editingValue\<close>) as arguments; where the handler returns before
  \<open>setDraft\<close>, the draft stays.
\<close>

definition addCity :: "(jsstring \<Rightarrow> jsstring) \<Rightarrow> jsstring \<Rightarrow> draft \<Rightarrow> draft" where
  "addCity toLowerCase cityInput d =
     (let v = trim cityInput in
      if v = [] then d
      else d\<lparr>cities := clampCities toLowerCase (map Some (cities d) @ [Some v])\<rparr>)"

definition removeCity :: "nat \<Rightarrow> draft \<Rightarrow> draft" where
  "removeCity idx d =
     d\<lparr>cities := map snd (filter (\<lambda>(i, _). i \<noteq> idx) (enumerate 0 (cities d)))\<rparr>"

text \<open>
  \<open>next[editingIndex] = v\<close> on a copy of the array: an index past the end extends the
  array, and the elements between are holes, read as \<open>undefined\<close>.
\<close>

definition array_set :: "'a option list \<Rightarrow> nat \<Rightarrow> 'a \<Rightarrow> 'a option list" where
  "array_set xs i v =
     (if i < length xs then xs[i := Some v]
      else xs @ replicate (i - length xs) None @ [Some v])"

definition commitEditCity ::
  "(jsstring \<Rightarrow> jsstring) \<Rightarrow> nat option \<Rightarrow> jsstring \<Rightarrow> draft \<Rightarrow> draft" where
  "commitEditCity toLowerCase editingIndex editingValue d =
     (case editingIndex of
        None \<Rightarrow> d
      | Some i \<Rightarrow>
          (let v = trim editingValue in
           if v = [] then d
           else d\<lparr>cities := clampCities toLowerCase (array_set (map Some (cities d)) i v)\<rparr>))"

text \<open>
  Restoring the draft. \<open>JSON.parse(raw) as Partial<Draft>\<close>: the persisted record is read
  at the type the source gives it, every field possibly absent; \<open>units\<close> is compared as
  a string, and an element of \<open>cities\<close> may be \<open>null\<close>. \<open>a || b\<close> on strings takes
  \<open>b\<close> when \<open>a\<close> is absent or empty.
\<close>

record partial_draft =
  p_email :: "jsstring option"
  p_timezone :: "jsstring option"
  p_preferred_time :: "jsstring option"
  p_units :: "jsstring option"
  p_cities :: "jsstring option list option"
  p_is_active :: "bool option"

definition or_str :: "jsstring option \<Rightarrow> jsstring \<Rightarrow> jsstring" where
  "or_str a b = (case a of None \<Rightarrow> b | Some s \<Rightarrow> if s = [] then b else s)"

definition restore_updater ::
  "(jsstring \<Rightarrow> jsstring) \<Rightarrow> partial_draft \<Rightarrow> draft \<Rightarrow> draft" where
  "restore_updater toLowerCase parsed prev =
     (let tz = trim (or_str (p_timezone parsed) (or_str (Some (timezone prev)) (js ''UTC'')))
      in \<lparr>email = (case p_email parsed of None \<Rightarrow> email prev | Some e \<Rightarrow> e),
          timezone = tz,
          preferred_time =
            take 5 (or_str (p_preferred_time parsed)
                      (or_str (Some (preferred_time prev)) (js ''09:00''))),
          units = (if p_units parsed = Some (js ''imperial'') then imperial else metric),
          cities =
            clampCities toLowerCase
              (case p_cities parsed of None \<Rightarrow> map Some (cities prev) | Some cs \<Rightarrow> cs),
          is_active = (case p_is_active parsed of None \<Rightarrow> is_active prev | Some b \<Rightarrow> b)\<rparr>)"

text \<open>
  The effect around it: \<open>getItem\<close> is what \<open>localStorage.getItem(DRAFT_KEY)\<close> gives
  (the stored text, \<open>null\<close>, or an error thrown), \<open>JSON_parse\<close> the platform's parser at
  the type above. Everything thrown is caught and ignored.
\<close>

definition restore ::
  "(jsstring \<Rightarrow> jsstring) \<Rightarrow> (jserror + jsstring option)
    \<Rightarrow> (jsstring \<Rightarrow> jserror + partial_draft) \<Rightarrow> draft \<Rightarrow> draft" where
  "restore toLowerCase getItem JSON_parse prev =
     (case getItem of
        Inl e \<Rightarrow> prev
      | Inr None \<Rightarrow> prev
      | Inr (Some raw) \<Rightarrow>
          if raw = [] then prev
          else (case JSON_parse raw of
                  Inl e \<Rightarrow> prev
                | Inr parsed \<Rightarrow> restore_updater toLowerCase parsed prev))"

text \<open>
  The drafts the page can hold: the initial one, and what restoring, the city handlers
  and the other setters (which leave \<open>cities\<close> alone) make of a draft it can hold.
\<close>

inductive reachable :: "(jsstring \<Rightarrow> jsstring) \<Rightarrow> draft \<Rightarrow> bool"
  for toLowerCase :: "jsstring \<Rightarrow> jsstring" where
  r_initial: "initialDraft formatToParts detectedTz = Inr d \<Longrightarrow> reachable toLowerCase d"
| r_restore: "reachable toLowerCase d \<Longrightarrow>
     reachable toLowerCase (restore toLowerCase getItem JSON_parse d)"
| r_addCity: "reachable toLowerCase d \<Longrightarrow> reachable toLowerCase (addCity toLowerCase cityInput d)"
| r_removeCity: "reachable toLowerCase d \<Longrightarrow> reachable toLowerCase (removeCity idx d)"
| r_commitEditCity: "reachable toLowerCase d \<Longrightarrow>
     reachable toLowerCase (commitEditCity toLowerCase editingIndex editingValue d)"
| r_setter: "reachable toLowerCase d \<Longrightarrow> cities d' = cities d \<Longrightarrow> reachable toLowerCase d'"

section \<open>Saving the subscription (page.tsx)\<close>

text \<open>
  \<open>timeValid\<close> tests the draft's time with \<open>/^\d{2}:\d{2}$/\<close>, untrimmed.
  \<open>scheduledAheadOk\<close> is a \<open>useMemo\<close> over \<open>[draft.timezone, draft.preferred_time,
  timeValid]\<close>: a render computes it, reading the clock of that render, when one of the
  three differs from the previous render's, and keeps the previous value otherwise.
\<close>

definition timeValid :: "draft \<Rightarrow> bool" where
  "timeValid d \<longleftrightarrow> match_HHMM (preferred_time d) \<noteq> None"

definition useMemo :: "('k \<times> 'v) option \<Rightarrow> 'k \<Rightarrow> (jserror + 'v) \<Rightarrow> jserror + ('k \<times> 'v)" where
  "useMemo previous deps compute =
     (case previous of
        Some (deps', v) \<Rightarrow>
          if deps' = deps then Inr (deps', v)
          else (case compute of Inl e \<Rightarrow> Inl e | Inr v' \<Rightarrow> Inr (deps, v'))
      | None \<Rightarrow> (case compute of Inl e \<Rightarrow> Inl e | Inr v' \<Rightarrow> Inr (deps, v')))"

type_synonym ahead_memo = "(jsstring \<times> jsstring \<times> bool) \<times> bool"

definition scheduledAheadOk :: "formatter \<Rightarrow> ahead_memo option \<Rightarrow> draft \<Rightarrow> jserror + ahead_memo" where
  "scheduledAheadOk formatToParts previous d =
     useMemo previous (timezone d, preferred_time d, timeValid d)
       (if \<not> timeValid d then Inr False
        else isAtLeastMinutesAhead formatToParts (timezone d) (preferred_time d)
               MIN_AHEAD_MINUTES)"

record payload =
  pl_email :: jsstring
  pl_timezone :: jsstring
  pl_preferred_time :: jsstring
  pl_units :: units
  pl_cities :: "jsstring list"
  pl_is_active :: bool

text \<open>
  \<open>fetch("/api/placeholder-upsert", ...)\<close>: the response with its status and the outcome
  of reading its text, or the error \<open>fetch\<close> throws.
\<close>

record fetch_response =
  res_status :: nat
  res_text :: "jserror + jsstring"

definition res_ok :: "fetch_response \<Rightarrow> bool" where
  "res_ok res \<longleftrightarrow> 200 \<le> res_status res \<and> res_status res \<le> 299"

datatype toast_kind = ToastOk | ToastErr

text \<open>
  What a call of \<open>saveSubscription\<close> leaves: the draft, the toast, the \<open>saving\<close> flag,
  the requests it sent, and the error its promise is rejected with, if any.
\<close>

record save_outcome =
  out_draft :: draft
  out_toast :: "(toast_kind \<times> jsstring) option"
  out_saving :: bool
  out_requests :: "payload list"
  out_rejected :: "jserror option"

definition guidance :: "draft \<Rightarrow> jsstring" where
  "guidance d =
     js ''Pick a time at least '' @ String_int MIN_AHEAD_MINUTES
       @ js '' minutes from now (in '' @ timezone d @ js ''). (Tomorrow is allowed.)''"

text \<open>
  \<open>saveSubscription\<close> reads \<open>draft\<close> and \<open>scheduledAheadOk\<close> from the render whose
  handler is running; the clock is read again only for a test.
\<close>

definition saveSubscription ::
  "formatter \<Rightarrow> (payload \<Rightarrow> jserror + fetch_response) \<Rightarrow> draft \<Rightarrow> bool \<Rightarrow> bool
    \<Rightarrow> save_outcome" where
  "saveSubscription formatToParts fetch d aheadOk testNow =
     (case (if testNow
            then addMinutesHHMMInTimeZone formatToParts (timezone d) MIN_AHEAD_MINUTES
            else Inr (preferred_time d)) of
        Inl e \<Rightarrow>
          \<lparr>out_draft = d, out_toast = None, out_saving = True, out_requests = [],
           out_rejected = Some e\<rparr>
      | Inr scheduled \<Rightarrow>
          if \<not> testNow \<and> \<not> aheadOk then
            \<lparr>out_draft = d, out_toast = Some (ToastErr, guidance d), out_saving = False,
             out_requests = [], out_rejected = None\<rparr>
          else
            (let p = \<lparr>pl_email = trim (email d), pl_timezone = trim (timezone d),
                      pl_preferred_time = trim scheduled, pl_units = units d,
                      pl_cities = cities d, pl_is_active = is_active d\<rparr>
             in case fetch p of
                  Inl e \<Rightarrow>
                    \<lparr>out_draft = d,
                     out_toast = Some (ToastErr, or_str (Some (message e)) (js ''Save failed'')),
                     out_saving = False, out_requests = [p], out_rejected = None\<rparr>
                | Inr res \<Rightarrow>
                    (let text = (case res_text res of Inl e \<Rightarrow> [] | Inr t \<Rightarrow> t) in
                     if \<not> res_ok res then
                       \<lparr>out_draft = d,
                        out_toast =
                          Some (ToastErr,
                            or_str (Some (or_str (Some text)
                                      (js ''HTTP '' @ String_int (int (res_status res)))))
                              (js ''Save failed'')),
                        out_saving = False, out_requests = [p], out_rejected = None\<rparr>
                     else if testNow then
                       \<lparr>out_draft = d\<lparr>preferred_time := scheduled\<rparr>,
                        out_toast =
                          Some (ToastOk,
                            js ''Saved '' @ [8212] @ js '' test scheduled for '' @ scheduled
                              @ js '' ('' @ timezone d @ js '')''),
                        out_saving = False, out_requests = [p], out_rejected = None\<rparr>
                     else
                       \<lparr>out_draft = d, out_toast = Some (ToastOk, js ''Saved''),
                        out_saving = False, out_requests = [p], out_rejected = None\<rparr>)))"

section \<open>The submission proxy (route handler POST)\<close>

text \<open>
  A JSON value as \<open>req.json()\<close> and \<open>JSON.parse\<close> give it; an object is the list of
  its properties in order. A number is kept as the real number it denotes: the handler
  only asks whether it is zero.
\<close>

datatype json =
    JNull
  | JBool bool
  | JNum real
  | JStr jsstring
  | JArr "json list"
  | JObj "(jsstring \<times> json) list"

text \<open>Reading a property: \<open>undefined\<close> (\<open>None\<close>) on anything that does not have it.\<close>

definition property :: "json \<Rightarrow> jsstring \<Rightarrow> json option" where
  "property v key = (case v of JObj kvs \<Rightarrow> map_of kvs key | _ \<Rightarrow> None)"

text \<open>The values on which \<open>!v\<close> is false.\<close>

fun truthy :: "json option \<Rightarrow> bool" where
  "truthy None = False"
| "truthy (Some JNull) = False"
| "truthy (Some (JBool b)) = b"
| "truthy (Some (JNum n)) = (n \<noteq> 0)"
| "truthy (Some (JStr s)) = (s \<noteq> [])"
| "truthy (Some (JArr xs)) = True"
| "truthy (Some (JObj kvs)) = True"

fun isArray :: "json option \<Rightarrow> bool" where
  "isArray (Some (JArr xs)) = True"
| "isArray _ = False"

record env =
  SUPABASE_URL :: "jsstring option"
  ADMIN_SECRET :: "jsstring option"
  SUPABASE_SERVICE_ROLE_KEY :: "jsstring option"

definition unset :: "jsstring option \<Rightarrow> bool" where
  "unset v \<longleftrightarrow> v = None \<or> v = Some []"

record upstream_request =
  req_url :: jsstring
  req_method :: jsstring
  req_headers :: "(jsstring \<times> jsstring) list"
  req_body :: json

record upstream_response =
  up_status :: nat
  up_text :: jsstring

definition up_ok :: "upstream_response \<Rightarrow> bool" where
  "up_ok u \<longleftrightarrow> 200 \<le> up_status u \<and> up_status u \<le> 299"

text \<open>
  A response of the handler: \<open>NextResponse.json(v, {status})\<close> serialises the value
  \<open>v\<close>; \<open>new NextResponse(text, {status})\<close> sends the text as it is, when the
  constructor accepts the status.
\<close>

datatype response_body = JsonBody json | TextBody jsstring

record response =
  status :: nat
  body :: response_body

definition error_response :: "jsstring \<Rightarrow> nat \<Rightarrow> response" where
  "error_response msg st = \<lparr>status = st, body = JsonBody (JObj [(js ''error'', JStr msg)])\<rparr>"

text \<open>
  \<open>NextResponse\<close> extends the platform's \<open>Response\<close>, whose constructor (Fetch
  standard, initialize a response) throws a \<open>RangeError\<close> for a status outside 200
  to 599 and, the body being a string and so not null (the empty string too), a
  \<open>TypeError\<close> for a null body status. The messages are worded as Node's
  implementation words them; nothing proved below depends on the wording.
\<close>

definition null_body_status :: "nat \<Rightarrow> bool" where
  "null_body_status st \<longleftrightarrow> st \<in> set [101, 103, 204, 205, 304]"

definition Response_refuses :: "nat \<Rightarrow> jserror option" where
  \<open>Response_refuses st =
     (if st < 200 \<or> 599 < st then
        Some (RangeError (js ''init["status"] must be in the range of 200 to 599, inclusive.''))
      else if null_body_status st then
        Some (TypeError
          (js ''Response constructor: Invalid response status code '' @ String_int (int st)))
      else None)\<close>

definition new_NextResponse :: "jsstring \<Rightarrow> nat \<Rightarrow> jserror + response" where
  "new_NextResponse text st =
     (case Response_refuses st of
        Some err \<Rightarrow> Inl err
      | None \<Rightarrow> Inr \<lparr>status = st, body = TextBody text\<rparr>)"

text \<open>
  The object literal \<open>{email, timezone, preferred_time, units, cities, is_active}\<close> under
  \<open>JSON.stringify\<close>: a property whose value is \<open>undefined\<close> is left out.
\<close>

definition stringified_object :: "(jsstring \<times> json option) list \<Rightarrow> json" where
  "stringified_object props =
     JObj (List.map_filter (\<lambda>(k, v). map_option (Pair k) v) props)"

definition required_fields_present :: "json \<Rightarrow> bool" where
  "required_fields_present b \<longleftrightarrow>
     \<not> (\<not> truthy (property b (js ''email'')) \<or>
        \<not> truthy (property b (js ''timezone'')) \<or>
        \<not> truthy (property b (js ''preferred_time'')) \<or>
        \<not> truthy (property b (js ''units'')) \<or>
        \<not> isArray (property b (js ''cities'')))"

definition upstream_request_of :: "env \<Rightarrow> json \<Rightarrow> upstream_request" where
  "upstream_request_of e b =
     \<lparr>req_url = nullish_str (SUPABASE_URL e) @ js ''/functions/v1/upsert-subscriber'',
      req_method = js ''POST'',
      req_headers =
        [(js ''content-type'', js ''application/json''),
         (js ''accept'', js ''application/json''),
         (js ''authorization'', js ''Bearer '' @ nullish_str (SUPABASE_SERVICE_ROLE_KEY e)),
         (js ''apikey'', nullish_str (SUPABASE_SERVICE_ROLE_KEY e)),
         (js ''x-admin-secret'', trim (nullish_str (ADMIN_SECRET e)))],
      req_body =
        stringified_object
          [(js ''email'', property b (js ''email'')),
           (js ''timezone'', property b (js ''timezone'')),
           (js ''preferred_time'', property b (js ''preferred_time'')),
           (js ''units'', property b (js ''units'')),
           (js ''cities'', property b (js ''cities'')),
           (js ''is_active'', property b (js ''is_active''))]\<rparr>"

text \<open>
  The handler. \<open>req_json\<close> is the outcome of \<open>await req.json()\<close>, \<open>fetch\<close> the upstream
  call together with the reading of its text (or what either throws), \<open>JSON_parse\<close> the
  platform's parser. The result is the response and the upstream requests made.
  Everything thrown inside the handler, by the constructor of the response too, reaches
  the outer \<open>catch\<close> and is answered with status 500.
\<close>

definition POST ::
  "env \<Rightarrow> (jserror + json) \<Rightarrow> (upstream_request \<Rightarrow> jserror + upstream_response)
    \<Rightarrow> (jsstring \<Rightarrow> jserror + json) \<Rightarrow> response \<times> upstream_request list" where
  "POST e req_json fetch JSON_parse =
     (if unset (SUPABASE_URL e) then
        (error_response (js ''Missing SUPABASE_URL env var'') 500, [])
      else if unset (ADMIN_SECRET e) then
        (error_response (js ''Missing ADMIN_SECRET env var'') 500, [])
      else if unset (SUPABASE_SERVICE_ROLE_KEY e) then
        (error_response (js ''Missing SUPABASE_SERVICE_ROLE_KEY env var'') 500, [])
      else
        (case req_json of
           Inl err \<Rightarrow>
             (error_response (or_str (Some (message err)) (js ''Server error'')) 500, [])
         | Inr body0 \<Rightarrow>
             (let b = (if body0 = JNull then JObj [] else body0) in
              if \<not> required_fields_present b then
                (error_response (js ''Missing required fields'') 400, [])
              else
                (let request = upstream_request_of e b in
                 case fetch request of
                   Inl err \<Rightarrow>
                     (error_response (or_str (Some (message err)) (js ''Server error'')) 500,
                      [request])
                 | Inr upstream \<Rightarrow>
                     if \<not> up_ok upstream then
                       (case new_NextResponse (up_text upstream) (up_status upstream) of
                          Inr r \<Rightarrow> (r, [request])
                        | Inl err \<Rightarrow>
                            (error_response
                               (or_str (Some (message err)) (js ''Server error'')) 500,
                             [request]))
                     else
                       (case JSON_parse (up_text upstream) of
                          Inr v \<Rightarrow> (\<lparr>status = 200, body = JsonBody v\<rparr>, [request])
                        | Inl err \<Rightarrow>
                            (case new_NextResponse (up_text upstream) 200 of
                               Inr r \<Rightarrow> (r, [request])
                             | Inl err' \<Rightarrow>
                                 (error_response
                                    (or_str (Some (message err')) (js ''Server error'')) 500,
                                  [request])))))))"

text \<open>The bytes of a response body, given the platform's \<open>JSON.stringify\<close>.\<close>

fun body_text :: "(json \<Rightarrow> jsstring) \<Rightarrow> response_body \<Rightarrow> jsstring" where
  "body_text JSON_stringify (JsonBody v) = JSON_stringify v"
| "body_text JSON_stringify (TextBody t) = t"

text \<open>
  The conditions of the specification on a deployment and on a payload: all three
  secrets set; the first one that is not; a payload that lacks a non-empty \<open>email\<close>,
  \<open>timezone\<close>, \<open>preferred_time\<close> or \<open>units\<close>, or whose \<open>cities\<close> is not an array.
\<close>

definition configured :: "env \<Rightarrow> bool" where
  "configured e \<longleftrightarrow>
     \<not> unset (SUPABASE_URL e) \<and> \<not> unset (ADMIN_SECRET e) \<and> \<not> unset (SUPABASE_SERVICE_ROLE_KEY e)"

definition missing_variable :: "env \<Rightarrow> jsstring option" where
  "missing_variable e =
     (if unset (SUPABASE_URL e) then Some (js ''SUPABASE_URL'')
      else if unset (ADMIN_SECRET e) then Some (js ''ADMIN_SECRET'')
      else if unset (SUPABASE_SERVICE_ROLE_KEY e) then Some (js ''SUPABASE_SERVICE_ROLE_KEY'')
      else None)"

definition lacks :: "json \<Rightarrow> jsstring \<Rightarrow> bool" where
  "lacks b key \<longleftrightarrow>
     property b key = None \<or> property b key = Some JNull \<or> property b key = Some (JStr [])"


definition lacks_required :: "json \<Rightarrow> bool" where
  "lacks_required b \<longleftrightarrow>
     lacks b (js ''email'') \<or> lacks b (js ''timezone'') \<or> lacks b (js ''preferred_time'')
     \<or> lacks b (js ''units'') \<or> \<not> isArray (property b (js ''cities''))"

definition forwarded_fields :: "jsstring list" where
  "forwarded_fields =
     [js ''email'', js ''timezone'', js ''preferred_time'', js ''units'', js ''cities'',
      js ''is_active'']"

section \<open>Sample values\<close>

text \<open>Concrete inputs at which the definitions are evaluated below.\<close>

definition example_cities :: "jsstring list" where
  "example_cities =
     [js ''London'', js '' london '', js '''', js ''Paris'', js ''PARIS'', js ''London'']"

definition noon_draft :: draft where
  "noon_draft =
     \<lparr>email = [], timezone = js ''UTC'', preferred_time = js ''12:00'', units = metric,
      cities = [js ''London''], is_active = True\<rparr>"




text \<open>
  A draft whose time was set to 10:05, the same draft after the active flag was
  switched off, and an endpoint that answers every request with 200 and an empty
  object.
\<close>

definition draft_1005 :: draft where
  "draft_1005 =
     \<lparr>email = js ''a@b.com'', timezone = js ''UTC'', preferred_time = js ''10:05'',
      units = metric, cities = [js ''London''], is_active = True\<rparr>"

definition draft_1005_inactive :: draft where
  "draft_1005_inactive = draft_1005\<lparr>is_active := False\<rparr>"

definition always_saved :: "payload \<Rightarrow> jserror + fetch_response" where
  "always_saved p = Inr \<lparr>res_status = 200, res_text = Inr (js ''{}'')\<rparr>"

text \<open>
  A configured deployment, one without the endpoint base, a complete payload, the same
  payload with a property the handler does not name, and one with no city.
\<close>

definition sample_env :: env where
  "sample_env =
     \<lparr>SUPABASE_URL = Some (js ''https://project.supabase.co''),
      ADMIN_SECRET = Some (js ''admin-secret''),
      SUPABASE_SERVICE_ROLE_KEY = Some (js ''service-role-key'')\<rparr>"

definition env_without_url :: env where
  "env_without_url = sample_env\<lparr>SUPABASE_URL := None\<rparr>"

definition sample_fields :: "(jsstring \<times> json) list" where
  "sample_fields =
     [(js ''email'', JStr (js ''a@b.com'')),
      (js ''timezone'', JStr (js ''UTC'')),
      (js ''preferred_time'', JStr (js ''09:00'')),
      (js ''units'', JStr (js ''metric'')),
      (js ''cities'', JArr [JStr (js ''London'')]),
      (js ''is_active'', JBool True)]"

definition payload_with_note :: json where
  "payload_with_note = JObj (sample_fields @ [(js ''note'', JStr (js ''hello''))])"


text \<open>
  An upstream that answers every request the same way; an upstream body with blanks in
  it; the platform's \<open>JSON.parse\<close> and \<open>JSON.stringify\<close> at that text and its
  value (the parser rejects every other text here).
\<close>

definition answering :: "upstream_response \<Rightarrow> upstream_request \<Rightarrow> jserror + upstream_response" where
  "answering u request = Inr u"

definition upstream_json_text :: jsstring where
  \<open>upstream_json_text = js ''{ "ok": true }''\<close>

definition compact_json_text :: jsstring where
  \<open>compact_json_text = js ''{"ok":true}''\<close>

definition sample_JSON_parse :: "jsstring \<Rightarrow> jserror + json" where
  "sample_JSON_parse t =
     (if t = upstream_json_text then Inr (JObj [(js ''ok'', JBool True)])
      else Inl (SyntaxError (js ''Unexpected token'')))"

definition sample_JSON_stringify :: "json \<Rightarrow> jsstring" where
  "sample_JSON_stringify v =
     (if v = JObj [(js ''ok'', JBool True)] then compact_json_text else js ''null'')"

definition unavailable :: upstream_response where
  "unavailable = \<lparr>up_status = 503, up_text = js ''Service Unavailable''\<rparr>"

definition not_modified :: upstream_response where
  "not_modified = \<lparr>up_status = 304, up_text = []\<rparr>"

section \<open>Auxiliary facts\<close>

subsection \<open>Trimming, digits and formatting\<close>

lemma trim_id:
  assumes "s \<noteq> []" "\<not> isWhiteSpace (hd s)" "\<not> isWhiteSpace (last s)"
  shows "trim s = s"
proof -
  from assms have 1: "dropWhile isWhiteSpace s = s" by (cases s) auto
  from assms have "rev s \<noteq> []" "\<not> isWhiteSpace (hd (rev s))" by (auto simp: hd_rev)
  then have 2: "dropWhile isWhiteSpace (rev s) = rev s" by (cases "rev s") auto
  show ?thesis by (simp add: trim_def 1 2)
qed

lemma dropWhile_keeps_last:
  assumes "xs \<noteq> []" "\<not> P (hd xs)"
  shows "hd (rev (dropWhile P (rev xs))) = hd xs \<and> rev (dropWhile P (rev xs)) \<noteq> []"
proof -
  from assms obtain y ys where xs: "xs = y # ys" and y: "\<not> P y" by (cases xs) auto
  have "dropWhile P (rev ys @ [y]) = dropWhile P (rev ys) @ [y] \<or> dropWhile P (rev ys @ [y]) = [y]"
    using y by (cases "\<forall>x \<in> set (rev ys). P x") (auto simp: dropWhile_append)
  with y show ?thesis by (auto simp: xs)
qed

lemma trim_ends:
  assumes "trim s \<noteq> []"
  shows "\<not> isWhiteSpace (hd (trim s)) \<and> \<not> isWhiteSpace (last (trim s))"
proof -
  let ?ys = "dropWhile isWhiteSpace s"
  have ys: "?ys \<noteq> []"
  proof
    assume "?ys = []"
    then have "trim s = []" unfolding trim_def by (simp only: dropWhile.simps rev.simps)
    with assms show False by simp
  qed
  then have h: "\<not> isWhiteSpace (hd ?ys)" by (rule hd_dropWhile)
  from dropWhile_keeps_last [of ?ys isWhiteSpace, OF ys h] have 1: "\<not> isWhiteSpace (hd (trim s))"
    using h by (simp add: trim_def)
  from assms have "dropWhile isWhiteSpace (rev ?ys) \<noteq> []" by (simp add: trim_def)
  then have "\<not> isWhiteSpace (hd (dropWhile isWhiteSpace (rev ?ys)))" by (rule hd_dropWhile)
  then have 2: "\<not> isWhiteSpace (last (trim s))" by (simp add: trim_def last_rev)
  from 1 2 show ?thesis by simp
qed

lemma trim_idem: "trim (trim s) = trim s"
proof (cases "trim s = []")
  case True
  have "trim [] = []" by (simp add: trim_def)
  with True show ?thesis by simp
next
  case False
  with trim_ends [OF False] show ?thesis by (intro trim_id) simp_all
qed

lemma isDigit_not_ws: "isDigit c \<Longrightarrow> \<not> isWhiteSpace c"
  by (auto simp: isDigit_def isWhiteSpace_def)

lemma String_num_small: "n < 10 \<Longrightarrow> String_num n = [48 + n]"
  by (simp add: String_num.simps)

lemma String_num_two: "10 \<le> n \<Longrightarrow> n < 100 \<Longrightarrow> String_num n = [48 + n div 10, 48 + n mod 10]"
  by (subst String_num.simps) (simp add: String_num_small)

lemma pad2:
  assumes "n < 100"
  shows "padStart 2 (js ''0'') (String_num n) = [48 + n div 10, 48 + n mod 10]"
proof (cases "n < 10")
  case True
  then show ?thesis by (simp add: String_num_small padStart_def js_def)
next
  case False
  with assms show ?thesis by (simp add: String_num_two padStart_def)
qed

lemma parseHHMM_digits:
  assumes "a < 10" "b < 10" "c < 10" "d < 10"
  shows "parseHHMM ([48 + a, 48 + b] @ js '':'' @ [48 + c, 48 + d]) =
     (if int a * 10 + int b > 23 \<or> int c * 10 + int d > 59 then None
      else Some \<lparr>hh = int a * 10 + int b, mm = int c * 10 + int d\<rparr>)"
proof -
  let ?s = "[48 + a, 48 + b] @ js '':'' @ [48 + c, 48 + d]"
  have "trim ?s = ?s"
    using assms by (intro trim_id isDigit_not_ws) (auto simp: isDigit_def js_def)
  then show ?thesis
    using assms by (simp add: parseHHMM_def js_def isDigit_def Number_digits_def)
qed

lemma parseHHMM_format:
  assumes "0 \<le> h" "h < 24" "0 \<le> m" "m < 60"
  shows "parseHHMM (padStart 2 (js ''0'') (String_int h) @ js '':'' @ padStart 2 (js ''0'') (String_int m))
         = Some \<lparr>hh = h, mm = m\<rparr>"
proof -
  have h: "padStart 2 (js ''0'') (String_int h) = [48 + nat h div 10, 48 + nat h mod 10]"
    using assms by (simp add: String_int_def pad2)
  have m: "padStart 2 (js ''0'') (String_int m) = [48 + nat m div 10, 48 + nat m mod 10]"
    using assms by (simp add: String_int_def pad2)
  have "parseHHMM ([48 + nat h div 10, 48 + nat h mod 10] @ js '':'' @ [48 + nat m div 10, 48 + nat m mod 10])
     = Some \<lparr>hh = h, mm = m\<rparr>"
    using assms by (subst parseHHMM_digits) (auto simp: zdiv_int zmod_int)
  then show ?thesis by (simp only: h m)
qed

lemma parseHHMM_range:
  assumes "parseHHMM s = Some p"
  shows "0 \<le> hh p \<and> hh p \<le> 23 \<and> 0 \<le> mm p \<and> mm p \<le> 59"
  using assms by (auto simp: parseHHMM_def Let_def split: option.splits if_splits)

lemma js_rem_nonneg: "0 \<le> a \<Longrightarrow> 0 < b \<Longrightarrow> js_rem a b = a mod b"
  by (simp add: js_rem_def sgn_if)

subsection \<open>The clock and the test time\<close>

lemma utc_now: "nowHHMMInTimeZone (utc_clock h m) (js ''UTC'') = Inr (h @ js '':'' @ m)"
  by (simp add: nowHHMMInTimeZone_def utc_clock_def js_def)

lemma parse_2359: "parseHHMM (js ''23:59'') = Some \<lparr>hh = 23, mm = 59\<rparr>"
  by (simp add: parseHHMM_def js_def trim_def isWhiteSpace_def isDigit_def Number_digits_def)

lemma parse_0001: "parseHHMM (js ''00:01'') = Some \<lparr>hh = 0, mm = 1\<rparr>"
  by (simp add: parseHHMM_def js_def trim_def isWhiteSpace_def isDigit_def Number_digits_def)

lemma addMinutes_value:
  assumes now: "nowHHMMInTimeZone fmt tz = Inr nowStr"
    and p: "parseHHMM nowStr = Some p"
    and d: "0 \<le> d"
  shows "addMinutesHHMMInTimeZone fmt tz d =
     Inr (padStart 2 (js ''0'') (String_int (((minutesOfDay (hh p) (mm p) + d) mod 1440) div 60))
          @ js '':'' @
          padStart 2 (js ''0'') (String_int (((minutesOfDay (hh p) (mm p) + d) mod 1440) mod 60)))"
proof -
  from parseHHMM_range [OF p] have "0 \<le> minutesOfDay (hh p) (mm p)"
    by (simp add: minutesOfDay_def)
  with d have t0: "0 \<le> minutesOfDay (hh p) (mm p) + d" by simp
  let ?t0 = "minutesOfDay (hh p) (mm p) + d"
  have 1: "js_rem ?t0 1440 = ?t0 mod 1440" using t0 by (simp add: js_rem_nonneg)
  have 2: "js_rem (?t0 mod 1440 + 1440) 1440 = ?t0 mod 1440"
    by (subst js_rem_nonneg) simp_all
  have 3: "js_rem (?t0 mod 1440) 60 = (?t0 mod 1440) mod 60"
    by (subst js_rem_nonneg) simp_all
  show ?thesis
    by (simp add: addMinutesHHMMInTimeZone_def now p Let_def 1 2 3)
qed

lemma addMinutes_parses:
  assumes now: "nowHHMMInTimeZone fmt tz = Inr nowStr"
    and p: "parseHHMM nowStr = Some p"
    and d: "0 \<le> d"
    and t: "addMinutesHHMMInTimeZone fmt tz d = Inr t"
  shows "hhmmToMinutes t = Some ((minutesOfDay (hh p) (mm p) + d) mod 1440)"
proof -
  let ?t = "(minutesOfDay (hh p) (mm p) + d) mod 1440"
  have r: "0 \<le> ?t" "?t < 1440" by simp_all
  then have "0 \<le> ?t div 60" "?t div 60 < 24" "0 \<le> ?t mod 60" "?t mod 60 < 60"
    by (simp_all add: div_less_iff_less_mult pos_imp_zdiv_nonneg_iff)
  from parseHHMM_format [OF this] addMinutes_value [OF now p d] t
  have "parseHHMM t = Some \<lparr>hh = ?t div 60, mm = ?t mod 60\<rparr>" by simp
  then show ?thesis by (simp add: hhmmToMinutes_def minutesOfDay_def)
qed

lemma add_2359: "addMinutesHHMMInTimeZone (utc_clock (js ''23'') (js ''59'')) (js ''UTC'') MIN_AHEAD_MINUTES = Inr (js ''00:01'')"
  apply (simp add: addMinutesHHMMInTimeZone_def utc_now)
  apply (simp add: parseHHMM_def js_def trim_def isWhiteSpace_def isDigit_def Number_digits_def minutesOfDay_def MIN_AHEAD_MINUTES_def js_rem_def String_int_def String_num.simps padStart_def)
  done

section \<open>Claims on the time arithmetic\<close>

text \<open>
  C1, as the code has it. When the platform formatter yields the current time of the
  zone, \<open>minutesUntilSend\<close> returns an integer between 0 and 1439 if that time and the
  target both parse as valid HH:MM, and \<open>null\<close> if either does not. When the formatter
  throws on the zone string, what it throws leaves \<open>minutesUntilSend\<close>.
\<close>

theorem minutesUntilSend_range:
  "case nowHHMMInTimeZone fmt tz of
     Inl e \<Rightarrow> minutesUntilSend fmt tz target = Inl e
   | Inr nowStr \<Rightarrow>
       (if parseHHMM nowStr \<noteq> None \<and> parseHHMM target \<noteq> None
        then \<exists>n. minutesUntilSend fmt tz target = Inr (Some n) \<and> 0 \<le> n \<and> n \<le> 1439
        else minutesUntilSend fmt tz target = Inr None)"
proof (cases "nowHHMMInTimeZone fmt tz")
  case (Inl e)
  then show ?thesis by (simp add: minutesUntilSend_def)
next
  case (Inr nowStr)
  note now = this
  show ?thesis
  proof (cases "parseHHMM nowStr")
    case None
    then show ?thesis by (simp add: minutesUntilSend_def now)
  next
    case (Some a)
    note a = this
    show ?thesis
    proof (cases "parseHHMM target")
      case None
      then show ?thesis by (simp add: minutesUntilSend_def now a)
    next
      case (Some b)
      from parseHHMM_range [OF a] parseHHMM_range [OF Some]
      show ?thesis
        by (simp add: minutesUntilSend_def now a Some Let_def minutesOfDay_def)
    qed
  qed
qed

theorem minutesUntilSend_range_witness:
  "nowHHMMInTimeZone (utc_clock (js ''23'') (js ''59'')) (js ''UTC'') = Inr (js ''23:59'') \<and>
   minutesUntilSend (utc_clock (js ''23'') (js ''59'')) (js ''UTC'') (js ''00:01'') = Inr (Some 2) \<and>
   (\<exists>n. minutesUntilSend (utc_clock (js ''23'') (js ''59'')) (js ''UTC'') (js ''00:01'') = Inr (Some n)
      \<and> 0 \<le> n \<and> n \<le> 1439)"
proof -
  have now: "nowHHMMInTimeZone (utc_clock (js ''23'') (js ''59'')) (js ''UTC'') = Inr (js ''23:59'')"
    using utc_now [of "js ''23''" "js ''59''"] by (simp add: js_def)
  have v: "minutesUntilSend (utc_clock (js ''23'') (js ''59'')) (js ''UTC'') (js ''00:01'') = Inr (Some 2)"
    by (simp add: minutesUntilSend_def now parse_2359 parse_0001 minutesOfDay_def)
  from minutesUntilSend_range [of "utc_clock (js ''23'') (js ''59'')" "js ''UTC''" "js ''00:01''"]
    now v
  show ?thesis by (simp add: parse_2359 parse_0001)
qed

text \<open>
  C1 as stated speaks of every timezone string. On a string that names no zone the
  formatter throws, and \<open>minutesUntilSend\<close> returns neither an integer nor \<open>null\<close>:
  the \<open>RangeError\<close> leaves it.
\<close>

theorem minutesUntilSend_unknown_zone_raises:
  "minutesUntilSend (utc_clock (js ''12'') (js ''00'')) (js ''Mars/Phobos'') (js ''12:30'')
     = Inl (RangeError (js ''Invalid time zone specified: Mars/Phobos''))"
  by (simp add: minutesUntilSend_def nowHHMMInTimeZone_def utc_clock_def js_def)

text \<open>
  C2. With the instant held fixed, if the current time of the zone parses, the time
  \<open>addMinutesHHMMInTimeZone\<close> gives for two minutes ahead passes
  \<open>isAtLeastMinutesAhead\<close> for two minutes; at 23:59 it is 00:01.
\<close>

theorem test_time_passes_lookahead:
  assumes now: "nowHHMMInTimeZone fmt tz = Inr nowStr"
    and p: "parseHHMM nowStr = Some p"
  shows "\<exists>t. addMinutesHHMMInTimeZone fmt tz MIN_AHEAD_MINUTES = Inr t \<and>
             isAtLeastMinutesAhead fmt tz t MIN_AHEAD_MINUTES = Inr True"
proof -
  have d: "0 \<le> MIN_AHEAD_MINUTES" by (simp add: MIN_AHEAD_MINUTES_def)
  from addMinutes_value [OF now p d] obtain t
    where t: "addMinutesHHMMInTimeZone fmt tz MIN_AHEAD_MINUTES = Inr t" by blast
  let ?n = "minutesOfDay (hh p) (mm p)"
  from addMinutes_parses [OF now p d t]
  obtain q where q: "parseHHMM t = Some q"
    and qm: "minutesOfDay (hh q) (mm q) = (?n + 2) mod 1440"
    by (auto simp: hhmmToMinutes_def MIN_AHEAD_MINUTES_def split: option.splits)
  from parseHHMM_range [OF p] have n: "0 \<le> ?n" "?n < 1440"
    by (simp_all add: minutesOfDay_def)
  have "isAtLeastMinutesAhead fmt tz t MIN_AHEAD_MINUTES = Inr True"
  proof (cases "?n + 2 < 1440")
    case True
    with n have "(?n + 2) mod 1440 = ?n + 2" by simp
    then show ?thesis
      by (simp add: isAtLeastMinutesAhead_def minutesUntilSend_def now p q qm Let_def
          MIN_AHEAD_MINUTES_def)
  next
    case False
    with n have "(?n + 2) mod 1440 = ?n + 2 - 1440"
      by (simp add: mod_pos_geq)
    with False n show ?thesis
      by (simp add: isAtLeastMinutesAhead_def minutesUntilSend_def now p q qm Let_def
          MIN_AHEAD_MINUTES_def)
  qed
  with t show ?thesis by blast
qed

theorem test_time_passes_lookahead_witness:
  "nowHHMMInTimeZone (utc_clock (js ''23'') (js ''59'')) (js ''UTC'') = Inr (js ''23:59'') \<and>
   parseHHMM (js ''23:59'') = Some \<lparr>hh = 23, mm = 59\<rparr> \<and>
   addMinutesHHMMInTimeZone (utc_clock (js ''23'') (js ''59'')) (js ''UTC'') MIN_AHEAD_MINUTES = Inr (js ''00:01'') \<and>
   isAtLeastMinutesAhead (utc_clock (js ''23'') (js ''59'')) (js ''UTC'') (js ''00:01'') MIN_AHEAD_MINUTES = Inr True"
proof -
  have now: "nowHHMMInTimeZone (utc_clock (js ''23'') (js ''59'')) (js ''UTC'') = Inr (js ''23:59'')"
    using utc_now [of "js ''23''" "js ''59''"] by (simp add: js_def)
  from test_time_passes_lookahead [OF now parse_2359] add_2359 now parse_2359
  show ?thesis by auto
qed

section \<open>Claims on the city list\<close>

lemma set_drop_seen: "set (drop_seen f xs) \<subseteq> set xs"
  by (induction f xs rule: drop_seen.induct) auto

lemma distinct_drop_seen: "distinct (map f (drop_seen f xs))"
proof (induction f xs rule: drop_seen.induct)
  case (1 f)
  show ?case by simp
next
  case (2 f x xs)
  have "f x \<notin> f ` set (drop_seen f (filter (\<lambda>y. f y \<noteq> f x) xs))"
    using set_drop_seen [of f "filter (\<lambda>y. f y \<noteq> f x) xs"] by auto
  with 2 show ?case by simp
qed

lemma clampCities_loop_eq:
  "clampCities_loop lc arr seen out =
     out @ drop_seen lc (filter (\<lambda>v. lc v \<notin> seen) (entries arr))"
proof (induction arr arbitrary: seen out)
  case Nil
  show ?case by (simp add: entries_def)
next
  case (Cons raw arr)
  let ?v = "trim (nullish_str raw)"
  have e: "entries (raw # arr) = (if ?v = [] then entries arr else ?v # entries arr)"
    by (simp add: entries_def)
  show ?case
    by (simp add: Cons.IH e Let_def conj_commute)
qed

lemma clampCities_eq: "clampCities lc arr = take 10 (drop_seen lc (entries arr))"
  by (simp add: clampCities_def clampCities_loop_eq)

lemma entries_Some: "entries (map Some xs) = filter (\<lambda>v. v \<noteq> []) (map trim xs)"
  by (simp add: entries_def nullish_str_def comp_def)

lemma clampCities_strings: "clampCities lc (map Some arr) = sanitized_cities lc arr"
  by (simp add: clampCities_eq entries_Some sanitized_cities_def)

lemma entries_trimmed: "v \<in> set (entries arr) \<Longrightarrow> trim v \<noteq> []"
  by (auto simp: entries_def trim_idem)

lemma clampCities_ok: "cities_ok lc (clampCities lc arr)"
proof -
  have "set (clampCities lc arr) \<subseteq> set (entries arr)"
    unfolding clampCities_eq using set_take_subset set_drop_seen by fast
  then have "\<forall>c \<in> set (clampCities lc arr). trim c \<noteq> []"
    using entries_trimmed by blast
  moreover have "distinct (map lc (clampCities lc arr))"
    unfolding clampCities_eq by (simp add: take_map [symmetric] distinct_take distinct_drop_seen)
  moreover have "length (clampCities lc arr) \<le> 10" by (simp add: clampCities_eq)
  ultimately show ?thesis by (simp add: cities_ok_def)
qed

lemma remove_index_set: "set (map snd (filter P (enumerate n xs))) \<subseteq> set xs"
  by (auto simp: in_set_enumerate_eq)

lemma remove_index_distinct:
  "distinct (map f xs) \<Longrightarrow> distinct (map f (map snd (filter P (enumerate n xs))))"
proof (induction xs arbitrary: n)
  case Nil
  show ?case by simp
next
  case (Cons x xs)
  have "f x \<notin> f ` set (map snd (filter P (enumerate (Suc n) xs)))"
    using Cons.prems remove_index_set [of P "Suc n" xs] by auto
  with Cons show ?case by auto
qed

lemma remove_index_length: "length (map snd (filter P (enumerate n xs))) \<le> length xs"
  using length_filter_le [of P "enumerate n xs"] by simp

lemma removeCity_ok: "cities_ok lc (cities d) \<Longrightarrow> cities_ok lc (cities (removeCity idx d))"
  unfolding cities_ok_def removeCity_def
  using remove_index_set [of "\<lambda>(i, _). i \<noteq> idx" 0 "cities d"]
        remove_index_length [of "\<lambda>(i, _). i \<noteq> idx" 0 "cities d"]
  by (auto simp: remove_index_distinct simp del: map_map)

lemma London_not_blank: "trim (js ''London'') \<noteq> []"
  by (simp add: trim_def js_def isWhiteSpace_def)

lemma noon_initial: "initialDraft (utc_clock (js ''12'') (js ''00'')) (js ''UTC'') = Inr noon_draft"
  by (simp add: initialDraft_def nowHHMMInTimeZone_def utc_clock_def noon_draft_def js_def)

lemma add_Paris: "cities (addCity ascii_lower (js '' paris'') noon_draft) = [js ''London'', js ''paris'']"
  by (simp add: addCity_def noon_draft_def clampCities_def nullish_str_def trim_def js_def
      isWhiteSpace_def ascii_lower_def Let_def)

text \<open>
  C3. On any list of strings \<open>clampCities\<close> gives the list the specification
  describes: entries trimmed, empty ones dropped, entries whose lowercase form was seen
  before dropped, the first ten kept. Whatever the lowercase mapping, as long as it
  identifies \<open>London\<close> with \<open>london\<close> and \<open>Paris\<close> with \<open>PARIS\<close> and tells
  the two cities apart, the example list gives \<open>[London, Paris]\<close>.
\<close>

theorem clampCities_sanitizes:
  "clampCities lc (map Some arr) = sanitized_cities lc arr \<and>
   (lc (js ''London'') = lc (js ''london'') \<and> lc (js ''Paris'') = lc (js ''PARIS'') \<and>
    lc (js ''London'') \<noteq> lc (js ''Paris'')
    \<longrightarrow> clampCities lc (map Some example_cities) = [js ''London'', js ''Paris''])"
proof
  show "clampCities lc (map Some arr) = sanitized_cities lc arr"
    by (rule clampCities_strings)
next
  have t: "trim (js ''London'') = js ''London''" "trim (js '' london '') = js ''london''"
    "trim (js '''') = []" "trim (js ''Paris'') = js ''Paris''" "trim (js ''PARIS'') = js ''PARIS''"
    by (simp_all add: trim_def js_def isWhiteSpace_def)
  have n: "js ''London'' \<noteq> []" "js ''london'' \<noteq> []" "js ''Paris'' \<noteq> []" "js ''PARIS'' \<noteq> []"
    by (simp_all add: js_def)
  show "lc (js ''London'') = lc (js ''london'') \<and> lc (js ''Paris'') = lc (js ''PARIS'') \<and>
    lc (js ''London'') \<noteq> lc (js ''Paris'')
    \<longrightarrow> clampCities lc (map Some example_cities) = [js ''London'', js ''Paris'']"
    by (auto simp add: clampCities_def example_cities_def nullish_str_def t n Let_def)
qed

theorem clampCities_sanitizes_witness:
  "ascii_lower (js ''London'') = ascii_lower (js ''london'') \<and>
   ascii_lower (js ''Paris'') = ascii_lower (js ''PARIS'') \<and>
   ascii_lower (js ''London'') \<noteq> ascii_lower (js ''Paris'') \<and>
   clampCities ascii_lower (map Some example_cities) = [js ''London'', js ''Paris''] \<and>
   sanitized_cities ascii_lower example_cities = [js ''London'', js ''Paris'']"
proof -
  have h: "ascii_lower (js ''London'') = ascii_lower (js ''london'') \<and>
   ascii_lower (js ''Paris'') = ascii_lower (js ''PARIS'') \<and>
   ascii_lower (js ''London'') \<noteq> ascii_lower (js ''Paris'')"
    by (simp add: ascii_lower_def js_def)
  note c = clampCities_sanitizes [of ascii_lower example_cities]
  from c h have v: "clampCities ascii_lower (map Some example_cities) = [js ''London'', js ''Paris'']"
    by blast
  from c v have "sanitized_cities ascii_lower example_cities = [js ''London'', js ''Paris'']"
    by metis
  with h v show ?thesis by blast
qed

text \<open>
  C4. Every draft the page can hold (the initial one, and what restoring, \<open>addCity\<close>,
  \<open>removeCity\<close> and \<open>commitEditCity\<close> make of one) has at most ten cities, none
  blank, no two equal up to case.
\<close>

theorem cities_invariant:
  assumes "reachable lc d"
  shows "cities_ok lc (cities d)"
  using assms
proof (induction rule: reachable.induct)
  case (r_initial formatToParts detectedTz d)
  then have "cities d = [js ''London'']"
    by (auto simp: initialDraft_def split: sum.splits)
  then show ?case by (simp add: cities_ok_def London_not_blank)
next
  case (r_restore d getItem JSON_parse)
  then show ?case
    by (auto simp: restore_def restore_updater_def Let_def clampCities_ok
        split: sum.splits option.splits)
next
  case (r_addCity d cityInput)
  then show ?case by (simp add: addCity_def Let_def clampCities_ok)
next
  case (r_removeCity d idx)
  then show ?case by (simp add: removeCity_ok)
next
  case (r_commitEditCity d editingIndex editingValue)
  then show ?case
    by (simp add: commitEditCity_def Let_def clampCities_ok split: option.splits)
next
  case (r_setter d d')
  then show ?case by simp
qed

theorem cities_invariant_witness:
  "reachable ascii_lower (addCity ascii_lower (js '' paris'') noon_draft) \<and>
   cities (addCity ascii_lower (js '' paris'') noon_draft) = [js ''London'', js ''paris''] \<and>
   cities_ok ascii_lower [js ''London'', js ''paris'']"
proof -
  have r: "reachable ascii_lower (addCity ascii_lower (js '' paris'') noon_draft)"
    by (rule r_addCity, rule r_initial, rule noon_initial)
  from cities_invariant [OF r] r add_Paris show ?thesis by simp
qed

section \<open>Claims on restoring the draft\<close>






section \<open>Claims on the submit guard\<close>

lemma lookahead_false_at_now:
  assumes now: "nowHHMMInTimeZone fmt tz = Inr t"
  shows "isAtLeastMinutesAhead fmt tz t MIN_AHEAD_MINUTES = Inr False"
  by (cases "parseHHMM t")
     (simp_all add: isAtLeastMinutesAhead_def minutesUntilSend_def now Let_def
        MIN_AHEAD_MINUTES_def)

lemma parse_1005: "parseHHMM (js ''10:05'') = Some \<lparr>hh = 10, mm = 5\<rparr>"
  by (simp add: parseHHMM_def js_def trim_def isWhiteSpace_def isDigit_def Number_digits_def)

lemma parse_1000: "parseHHMM (js ''10:00'') = Some \<lparr>hh = 10, mm = 0\<rparr>"
  by (simp add: parseHHMM_def js_def trim_def isWhiteSpace_def isDigit_def Number_digits_def)

lemma timeValid_1005: "match_HHMM (js ''10:05'') \<noteq> None"
  by (simp add: js_def isDigit_def)

lemma now_1000: "nowHHMMInTimeZone (utc_clock (js ''10'') (js ''00'')) (js ''UTC'') = Inr (js ''10:00'')"
  using utc_now [of "js ''10''" "js ''00''"] by (simp add: js_def)

lemma now_1005: "nowHHMMInTimeZone (utc_clock (js ''10'') (js ''05'')) (js ''UTC'') = Inr (js ''10:05'')"
  using utc_now [of "js ''10''" "js ''05''"] by (simp add: js_def)

lemma ahead_at_1000:
  "isAtLeastMinutesAhead (utc_clock (js ''10'') (js ''00'')) (js ''UTC'') (js ''10:05'') MIN_AHEAD_MINUTES
     = Inr True"
  by (simp add: isAtLeastMinutesAhead_def minutesUntilSend_def now_1000 parse_1000 parse_1005
      minutesOfDay_def MIN_AHEAD_MINUTES_def)

text \<open>
  A lookahead flag computed by a render in which the clock shows the draft's own time is
  false, and a normal save that reads a false flag is refused with the guidance, sends
  nothing and leaves the draft.
\<close>

lemma fresh_lookahead_false:
  assumes now: "nowHHMMInTimeZone fmt (timezone d) = Inr (preferred_time d)"
  shows "scheduledAheadOk fmt None d = Inr ((timezone d, preferred_time d, timeValid d), False)"
  by (simp add: scheduledAheadOk_def useMemo_def lookahead_false_at_now [OF now])

lemma save_refused:
  "saveSubscription fmt fetch d False False =
     \<lparr>out_draft = d, out_toast = Some (ToastErr, guidance d), out_saving = False,
      out_requests = [], out_rejected = None\<rparr>"
  by (simp add: saveSubscription_def)

text \<open>
  C5. The handler does not read the clock for a normal save (it does for a test): it
  reads the flag of its render, which is recomputed only when the zone or the time of
  the draft changes. A draft set to 10:05 at 10:00 gets the flag \<open>True\<close>; a render
  at 10:05 of the same zone and time keeps it; a normal save at 10:05, when the draft's
  time is the current time, sends the request and reports \<open>Saved\<close>.
\<close>

theorem save_with_stale_lookahead:
  "scheduledAheadOk (utc_clock (js ''10'') (js ''00'')) None draft_1005
     = Inr ((js ''UTC'', js ''10:05'', True), True) \<and>
   scheduledAheadOk (utc_clock (js ''10'') (js ''05''))
       (Some ((js ''UTC'', js ''10:05'', True), True)) draft_1005_inactive
     = Inr ((js ''UTC'', js ''10:05'', True), True) \<and>
   nowHHMMInTimeZone (utc_clock (js ''10'') (js ''05'')) (timezone draft_1005_inactive)
     = Inr (preferred_time draft_1005_inactive) \<and>
   saveSubscription (utc_clock (js ''10'') (js ''05'')) always_saved draft_1005_inactive True False
     = \<lparr>out_draft = draft_1005_inactive, out_toast = Some (ToastOk, js ''Saved''),
        out_saving = False,
        out_requests =
          [\<lparr>pl_email = js ''a@b.com'', pl_timezone = js ''UTC'',
            pl_preferred_time = js ''10:05'', pl_units = metric,
            pl_cities = [js ''London''], pl_is_active = False\<rparr>],
        out_rejected = None\<rparr>"
proof -
  have t: "trim (js ''a@b.com'') = js ''a@b.com''" "trim (js ''UTC'') = js ''UTC''"
    "trim (js ''10:05'') = js ''10:05''"
    by (simp_all add: trim_def js_def isWhiteSpace_def)
  have 1: "scheduledAheadOk (utc_clock (js ''10'') (js ''00'')) None draft_1005
     = Inr ((js ''UTC'', js ''10:05'', True), True)"
    by (simp add: scheduledAheadOk_def useMemo_def draft_1005_def timeValid_def timeValid_1005
        ahead_at_1000)
  have 2: "scheduledAheadOk (utc_clock (js ''10'') (js ''05''))
       (Some ((js ''UTC'', js ''10:05'', True), True)) draft_1005_inactive
     = Inr ((js ''UTC'', js ''10:05'', True), True)"
    by (simp add: scheduledAheadOk_def useMemo_def draft_1005_inactive_def draft_1005_def
        timeValid_def timeValid_1005)
  have 3: "nowHHMMInTimeZone (utc_clock (js ''10'') (js ''05'')) (timezone draft_1005_inactive)
     = Inr (preferred_time draft_1005_inactive)"
    by (simp add: draft_1005_inactive_def draft_1005_def now_1005)
  have 4: "saveSubscription (utc_clock (js ''10'') (js ''05'')) always_saved draft_1005_inactive True False
     = \<lparr>out_draft = draft_1005_inactive, out_toast = Some (ToastOk, js ''Saved''),
        out_saving = False,
        out_requests =
          [\<lparr>pl_email = js ''a@b.com'', pl_timezone = js ''UTC'',
            pl_preferred_time = js ''10:05'', pl_units = metric,
            pl_cities = [js ''London''], pl_is_active = False\<rparr>],
        out_rejected = None\<rparr>"
    by (simp add: saveSubscription_def always_saved_def res_ok_def draft_1005_inactive_def
        draft_1005_def t Let_def)
  from 1 2 3 4 show ?thesis by (intro conjI)
qed

section \<open>Claims on the proxy\<close>

subsection \<open>Configuration and validation\<close>

lemma lacks_not_truthy: "lacks b k \<Longrightarrow> \<not> truthy (property b k)"
  by (auto simp: lacks_def)

lemma lacks_required_fails: "lacks_required b \<Longrightarrow> \<not> required_fields_present b"
  by (auto simp: lacks_required_def required_fields_present_def dest: lacks_not_truthy)

lemma POST_unconfigured:
  assumes "missing_variable e = Some name"
  shows "POST e req_json fetch JSON_parse =
         (error_response (js ''Missing '' @ name @ js '' env var'') 500, [])"
  using assms
  by (auto simp: missing_variable_def POST_def js_def split: if_splits)

lemma new_NextResponse_200:
  "new_NextResponse t 200 = Inr \<lparr>status = 200, body = TextBody t\<rparr>"
  by (simp add: new_NextResponse_def Response_refuses_def null_body_status_def)

lemma POST_configured:
  assumes "configured e"
  shows "POST e (Inr body0) fetch JSON_parse =
     (let b = (if body0 = JNull then JObj [] else body0) in
      if \<not> required_fields_present b then
        (error_response (js ''Missing required fields'') 400, [])
      else
        (let request = upstream_request_of e b in
         case fetch request of
           Inl err \<Rightarrow>
             (error_response (or_str (Some (message err)) (js ''Server error'')) 500, [request])
         | Inr upstream \<Rightarrow>
             if \<not> up_ok upstream then
               (case new_NextResponse (up_text upstream) (up_status upstream) of
                  Inr r \<Rightarrow> (r, [request])
                | Inl err \<Rightarrow>
                    (error_response (or_str (Some (message err)) (js ''Server error'')) 500,
                     [request]))
             else
               (case JSON_parse (up_text upstream) of
                  Inr v \<Rightarrow> (\<lparr>status = 200, body = JsonBody v\<rparr>, [request])
                | Inl err \<Rightarrow>
                    (case new_NextResponse (up_text upstream) 200 of
                       Inr r \<Rightarrow> (r, [request])
                     | Inl err' \<Rightarrow>
                         (error_response (or_str (Some (message err')) (js ''Server error'')) 500,
                          [request])))))"
  using assms by (simp add: POST_def configured_def)

lemma present_not_null: "required_fields_present b \<Longrightarrow> b \<noteq> JNull"
  by (auto simp: required_fields_present_def property_def)

lemma lacks_required_null: "lacks_required (JObj []) \<longleftrightarrow> True"
  by (simp add: lacks_required_def lacks_def property_def)

lemma sample_configured: "configured sample_env"
  by (simp add: configured_def sample_env_def unset_def js_def)

lemma without_url_missing: "missing_variable env_without_url = Some (js ''SUPABASE_URL'')"
  by (simp add: missing_variable_def env_without_url_def sample_env_def unset_def)

lemma no_cities_lacks: "lacks_required (JObj [(js ''email'', JStr (js ''a@b.com''))])"
  by (simp add: lacks_required_def lacks_def property_def js_def)

text \<open>
  C8, as the code has it. With all three secrets set, a payload that lacks a non-empty
  \<open>email\<close>, \<open>timezone\<close>, \<open>preferred_time\<close> or \<open>units\<close>, or whose \<open>cities\<close>
  is not an array, is answered with status 400 and a JSON error body; with a secret
  unset, every request is answered with status 500 and a message that names the first
  missing variable. Neither contacts the upstream service.
\<close>

theorem POST_rejects:
  "(configured e \<and> lacks_required payload \<longrightarrow>
      POST e (Inr payload) fetch JSON_parse =
        (error_response (js ''Missing required fields'') 400, []))
   \<and> (missing_variable e = Some name \<longrightarrow>
      POST e req_json fetch JSON_parse =
        (error_response (js ''Missing '' @ name @ js '' env var'') 500, []))"
proof (intro conjI impI)
  assume a: "configured e \<and> lacks_required payload"
  show "POST e (Inr payload) fetch JSON_parse =
        (error_response (js ''Missing required fields'') 400, [])"
  proof (cases "payload = JNull")
    case True
    with a show ?thesis
      by (simp add: POST_configured lacks_required_fails lacks_required_null)
  next
    case False
    with a show ?thesis
      by (simp add: POST_configured lacks_required_fails)
  qed
next
  assume "missing_variable e = Some name"
  then show "POST e req_json fetch JSON_parse =
        (error_response (js ''Missing '' @ name @ js '' env var'') 500, [])"
    by (rule POST_unconfigured)
qed

theorem POST_rejects_witness:
  "configured sample_env \<and> lacks_required (JObj [(js ''email'', JStr (js ''a@b.com''))]) \<and>
   POST sample_env (Inr (JObj [(js ''email'', JStr (js ''a@b.com''))]))
       (answering \<lparr>up_status = 200, up_text = upstream_json_text\<rparr>) sample_JSON_parse =
     (error_response (js ''Missing required fields'') 400, []) \<and>
   missing_variable env_without_url = Some (js ''SUPABASE_URL'') \<and>
   POST env_without_url (Inr (JObj sample_fields))
       (answering \<lparr>up_status = 200, up_text = upstream_json_text\<rparr>) sample_JSON_parse =
     (error_response (js ''Missing SUPABASE_URL env var'') 500, [])"
proof -
  note r = POST_rejects [of sample_env "JObj [(js ''email'', JStr (js ''a@b.com''))]"
      "answering \<lparr>up_status = 200, up_text = upstream_json_text\<rparr>" sample_JSON_parse]
  note s = POST_rejects [of env_without_url _ 
      "answering \<lparr>up_status = 200, up_text = upstream_json_text\<rparr>" sample_JSON_parse
      "js ''SUPABASE_URL''" "Inr (JObj sample_fields)"]
  have m: "js ''Missing '' @ js ''SUPABASE_URL'' @ js '' env var'' = js ''Missing SUPABASE_URL env var''"
    by (simp add: js_def)
  from r sample_configured no_cities_lacks
  have 1: "POST sample_env (Inr (JObj [(js ''email'', JStr (js ''a@b.com''))]))
       (answering \<lparr>up_status = 200, up_text = upstream_json_text\<rparr>) sample_JSON_parse =
     (error_response (js ''Missing required fields'') 400, [])" by blast
  from s without_url_missing
  have 2: "POST env_without_url (Inr (JObj sample_fields))
       (answering \<lparr>up_status = 200, up_text = upstream_json_text\<rparr>) sample_JSON_parse =
     (error_response (js ''Missing SUPABASE_URL env var'') 500, [])"
    unfolding m [symmetric] by blast
  from 1 2 sample_configured no_cities_lacks without_url_missing show ?thesis by (intro conjI)
qed

text \<open>
  C8 as stated answers 400 whenever the payload lacks a required field. The secrets are
  checked first: an empty payload on a deployment without \<open>SUPABASE_URL\<close> is
  answered with 500.
\<close>

theorem POST_unconfigured_wins:
  "lacks_required (JObj []) \<and>
   status (fst (POST env_without_url (Inr (JObj []))
      (answering \<lparr>up_status = 200, up_text = upstream_json_text\<rparr>) sample_JSON_parse)) = 500 \<and>
   POST env_without_url (Inr (JObj []))
      (answering \<lparr>up_status = 200, up_text = upstream_json_text\<rparr>) sample_JSON_parse
     = (error_response (js ''Missing SUPABASE_URL env var'') 500, [])"
proof -
  have "POST env_without_url (Inr (JObj []))
      (answering \<lparr>up_status = 200, up_text = upstream_json_text\<rparr>) sample_JSON_parse
     = (error_response (js ''Missing SUPABASE_URL env var'') 500, [])"
    by (simp add: POST_def env_without_url_def sample_env_def unset_def)
  then show ?thesis by (simp add: lacks_required_null error_response_def)
qed

subsection \<open>What goes upstream\<close>

lemma POST_sends_once:
  assumes "configured e" and "required_fields_present payload"
  shows "snd (POST e (Inr payload) fetch JSON_parse) = [upstream_request_of e payload]"
  using assms present_not_null [of payload]
  by (simp add: POST_configured Let_def split: sum.splits)

lemma stringified_absent:
  "k \<notin> fst ` set props \<Longrightarrow>
   map_of (List.map_filter (\<lambda>(k, v). map_option (Pair k) v) props) k = None"
  by (induction props) (auto simp: List.map_filter_simps split: option.splits)

lemma property_stringified:
  assumes "distinct (map fst props)"
  shows "property (stringified_object props) k =
         (case map_of props k of Some (Some v) \<Rightarrow> Some v | _ \<Rightarrow> None)"
  using assms
proof (induction props)
  case Nil
  show ?case by (simp add: property_def stringified_object_def List.map_filter_simps)
next
  case (Cons p props)
  obtain k' v' where p: "p = (k', v')" by (cases p)
  from Cons.prems have absent: "k' \<notin> fst ` set props" and d: "distinct (map fst props)"
    by (simp_all add: p)
  from Cons.IH [OF d] have IH:
    "map_of (List.map_filter (\<lambda>(k, v). map_option (Pair k) v) props) k =
       (case map_of props k of Some (Some v) \<Rightarrow> Some v | _ \<Rightarrow> None)"
    by (simp add: property_def stringified_object_def)
  from absent have "map_of props k' = None" by (simp add: map_of_eq_None_iff)
  then show ?case
    using IH stringified_absent [OF absent]
    by (cases v') (simp_all add: property_def stringified_object_def List.map_filter_simps p)
qed

lemma forwarded_distinct: "distinct forwarded_fields"
  by (simp add: forwarded_fields_def js_def)

lemma req_body_fields:
  "req_body (upstream_request_of e b) =
     stringified_object (map (\<lambda>k. (k, property b k)) forwarded_fields)"
  by (simp add: upstream_request_of_def forwarded_fields_def)

lemma forwarded_property:
  "property (req_body (upstream_request_of e b)) k =
     (if k \<in> set forwarded_fields then property b k else None)"
proof -
  have d: "distinct (map fst (map (\<lambda>k. (k, property b k)) forwarded_fields))"
    using forwarded_distinct by (simp add: comp_def)
  have m: "map_of (map (\<lambda>k. (k, property b k)) forwarded_fields) k =
           (if k \<in> set forwarded_fields then Some (property b k) else None)"
    by (simp add: map_of_map_restrict restrict_map_def)
  show ?thesis
    by (simp add: req_body_fields property_stringified [OF d] m split: option.splits)
qed

lemma note_present: "required_fields_present payload_with_note"
  by (simp add: required_fields_present_def payload_with_note_def sample_fields_def
      property_def js_def)

lemma sample_present: "required_fields_present (JObj sample_fields)"
  by (simp add: required_fields_present_def sample_fields_def property_def js_def)

lemma note_property: "property payload_with_note (js ''note'') = Some (JStr (js ''hello''))"
  by (simp add: payload_with_note_def sample_fields_def property_def js_def)

lemma note_not_forwarded: "js ''note'' \<notin> set forwarded_fields"
  by (simp add: forwarded_fields_def js_def)

lemma email_forwarded: "js ''email'' \<in> set forwarded_fields"
  by (simp add: forwarded_fields_def)

lemma note_email: "property payload_with_note (js ''email'') = Some (JStr (js ''a@b.com''))"
  by (simp add: payload_with_note_def sample_fields_def property_def)



text \<open>
  C9, as the code has it. For a payload that passes the validation, one request goes
  upstream, and its body has exactly the six properties the handler names, each with
  the value received (and absent when the payload does not have it); nothing else of
  the payload is in it.
\<close>

theorem POST_forwards_named_fields:
  assumes "configured e" and "required_fields_present payload"
  shows "\<exists>r. snd (POST e (Inr payload) fetch JSON_parse) = [r] \<and>
           (\<forall>k. property (req_body r) k =
                  (if k \<in> set forwarded_fields then property payload k else None))"
  using POST_sends_once [OF assms] forwarded_property by blast

theorem POST_forwards_named_fields_witness:
  "configured sample_env \<and> required_fields_present payload_with_note \<and>
   (\<exists>r. snd (POST sample_env (Inr payload_with_note)
              (answering \<lparr>up_status = 200, up_text = upstream_json_text\<rparr>) sample_JSON_parse) = [r]
        \<and> property (req_body r) (js ''email'') = Some (JStr (js ''a@b.com''))
        \<and> property (req_body r) (js ''note'') = None)"
proof -
  from POST_forwards_named_fields [OF sample_configured note_present,
      of "answering \<lparr>up_status = 200, up_text = upstream_json_text\<rparr>" sample_JSON_parse]
  obtain r where r: "snd (POST sample_env (Inr payload_with_note)
              (answering \<lparr>up_status = 200, up_text = upstream_json_text\<rparr>) sample_JSON_parse) = [r]"
    and k: "\<And>k. property (req_body r) k =
                  (if k \<in> set forwarded_fields then property payload_with_note k else None)"
    by blast
  from k [of "js ''email''"] have 1: "property (req_body r) (js ''email'') = Some (JStr (js ''a@b.com''))"
    by (simp add: email_forwarded note_email)
  from k [of "js ''note''"] have 2: "property (req_body r) (js ''note'') = None"
    by (simp add: note_not_forwarded)
  from r 1 2 sample_configured note_present show ?thesis by blast
qed

text \<open>
  C9 as stated forwards the payload as it is. A payload with a seventh property
  \<open>note\<close> passes the validation, and the body sent upstream does not have it.
\<close>

theorem POST_drops_other_fields:
  "map req_body (snd (POST sample_env (Inr payload_with_note)
       (answering \<lparr>up_status = 200, up_text = upstream_json_text\<rparr>) sample_JSON_parse))
     = [JObj sample_fields] \<and>
   JObj sample_fields \<noteq> payload_with_note \<and>
   property payload_with_note (js ''note'') = Some (JStr (js ''hello'')) \<and>
   property (JObj sample_fields) (js ''note'') = None"
proof -
  have b: "req_body (upstream_request_of sample_env payload_with_note) = JObj sample_fields"
    by (simp add: upstream_request_of_def stringified_object_def List.map_filter_simps
        payload_with_note_def sample_fields_def property_def js_def)
  have 1: "map req_body (snd (POST sample_env (Inr payload_with_note)
       (answering \<lparr>up_status = 200, up_text = upstream_json_text\<rparr>) sample_JSON_parse))
     = [JObj sample_fields]"
    by (simp add: POST_sends_once [OF sample_configured note_present] b)
  have 2: "JObj sample_fields \<noteq> payload_with_note"
    by (simp add: payload_with_note_def)
  have 3: "property (JObj sample_fields) (js ''note'') = None"
    by (simp add: sample_fields_def property_def js_def)
  from 1 2 3 note_property show ?thesis by (intro conjI)
qed



subsection \<open>What comes back\<close>

lemma refuses_failure:
  assumes "\<not> (200 \<le> st \<and> st \<le> 299)"
  shows "Response_refuses st = None \<longleftrightarrow> 300 \<le> st \<and> st \<le> 599 \<and> st \<noteq> 304"
  using assms by (auto simp: Response_refuses_def null_body_status_def)

text \<open>
  C7, as the code has it. When the upstream status is in 200 to 299, the proxy answers
  with status 200 whatever the upstream status was; the body is the upstream text
  unchanged when \<open>JSON.parse\<close> rejects the text, and otherwise what
  \<open>NextResponse.json\<close> serialises from the value \<open>JSON.parse\<close> returned. When the
  upstream status is a failure that the \<open>Response\<close> constructor accepts with a body
  (300 to 599, 304 apart), the proxy answers with the upstream status and the upstream
  text unchanged. On any other upstream status the constructor throws, and the
  handler's \<open>catch\<close> answers 500 with a JSON error body.
\<close>

theorem POST_relays:
  assumes "configured e" and "required_fields_present payload"
    and "fetch (upstream_request_of e payload) = Inr u"
  shows "if up_ok u then
           status (fst (POST e (Inr payload) fetch JSON_parse)) = 200 \<and>
           body_text JSON_stringify (body (fst (POST e (Inr payload) fetch JSON_parse))) =
             (case JSON_parse (up_text u) of
                Inr v \<Rightarrow> JSON_stringify v
              | Inl err \<Rightarrow> up_text u)
         else if 300 \<le> up_status u \<and> up_status u \<le> 599 \<and> up_status u \<noteq> 304 then
           fst (POST e (Inr payload) fetch JSON_parse) =
             \<lparr>status = up_status u, body = TextBody (up_text u)\<rparr>
         else
           status (fst (POST e (Inr payload) fetch JSON_parse)) = 500 \<and>
           (\<exists>m. body (fst (POST e (Inr payload) fetch JSON_parse)) =
                  JsonBody (JObj [(js ''error'', JStr m)]))"
proof (cases "up_ok u")
  case True
  with assms present_not_null [of payload] show ?thesis
    by (simp add: POST_configured Let_def new_NextResponse_200 split: sum.splits)
next
  case False
  then have f: "\<not> (200 \<le> up_status u \<and> up_status u \<le> 299)" by (simp add: up_ok_def)
  show ?thesis
  proof (cases "Response_refuses (up_status u)")
    case None
    then have "new_NextResponse (up_text u) (up_status u) =
        Inr \<lparr>status = up_status u, body = TextBody (up_text u)\<rparr>"
      by (simp add: new_NextResponse_def)
    with None refuses_failure [OF f] False assms present_not_null [of payload] show ?thesis
      by (simp add: POST_configured Let_def)
  next
    case (Some err)
    then have n: "new_NextResponse (up_text u) (up_status u) = Inl err"
      by (simp add: new_NextResponse_def)
    from Some refuses_failure [OF f]
    have "\<not> (300 \<le> up_status u \<and> up_status u \<le> 599 \<and> up_status u \<noteq> 304)"
      by simp
    with n False assms present_not_null [of payload] show ?thesis
      by (simp add: POST_configured Let_def error_response_def)
  qed
qed

theorem POST_relays_witness:
  "configured sample_env \<and> required_fields_present (JObj sample_fields) \<and>
   answering unavailable (upstream_request_of sample_env (JObj sample_fields)) = Inr unavailable \<and>
   fst (POST sample_env (Inr (JObj sample_fields)) (answering unavailable) sample_JSON_parse)
     = \<lparr>status = 503, body = TextBody (js ''Service Unavailable'')\<rparr> \<and>
   answering not_modified (upstream_request_of sample_env (JObj sample_fields)) = Inr not_modified \<and>
   status (fst (POST sample_env (Inr (JObj sample_fields)) (answering not_modified) sample_JSON_parse))
     = 500"
proof -
  have a: "answering unavailable (upstream_request_of sample_env (JObj sample_fields)) = Inr unavailable"
    by (simp add: answering_def)
  have b: "answering not_modified (upstream_request_of sample_env (JObj sample_fields)) = Inr not_modified"
    by (simp add: answering_def)
  have n: "\<not> up_ok unavailable" "up_status unavailable = 503"
    "up_text unavailable = js ''Service Unavailable''"
    by (simp_all add: up_ok_def unavailable_def)
  have m: "\<not> up_ok not_modified" "up_status not_modified = 304"
    by (simp_all add: up_ok_def not_modified_def)
  from POST_relays [where e = sample_env and payload = "JObj sample_fields"
      and fetch = "answering unavailable" and u = unavailable
      and JSON_stringify = sample_JSON_stringify and JSON_parse = sample_JSON_parse,
      OF sample_configured sample_present a] n
  have 1: "fst (POST sample_env (Inr (JObj sample_fields)) (answering unavailable) sample_JSON_parse)
     = \<lparr>status = 503, body = TextBody (js ''Service Unavailable'')\<rparr>"
    by simp
  from POST_relays [where e = sample_env and payload = "JObj sample_fields"
      and fetch = "answering not_modified" and u = not_modified
      and JSON_stringify = sample_JSON_stringify and JSON_parse = sample_JSON_parse,
      OF sample_configured sample_present b] m
  have 2: "status (fst (POST sample_env (Inr (JObj sample_fields)) (answering not_modified)
      sample_JSON_parse)) = 500"
    by simp
  from 1 2 a b sample_configured sample_present show ?thesis by (intro conjI)
qed

text \<open>
  C7 as stated relays status and body byte for byte. An upstream answer 201 with the
  body \<open>{ "ok": true }\<close> comes back as 200 with the body \<open>{"ok":true}\<close>.
\<close>

theorem POST_reserialises:
  "fst (POST sample_env (Inr (JObj sample_fields))
          (answering \<lparr>up_status = 201, up_text = upstream_json_text\<rparr>) sample_JSON_parse)
     = \<lparr>status = 200, body = JsonBody (JObj [(js ''ok'', JBool True)])\<rparr> \<and>
   body_text sample_JSON_stringify (JsonBody (JObj [(js ''ok'', JBool True)])) = compact_json_text \<and>
   compact_json_text \<noteq> upstream_json_text"
proof -
  have 1: "fst (POST sample_env (Inr (JObj sample_fields))
          (answering \<lparr>up_status = 201, up_text = upstream_json_text\<rparr>) sample_JSON_parse)
     = \<lparr>status = 200, body = JsonBody (JObj [(js ''ok'', JBool True)])\<rparr>"
    using sample_present
    by (simp add: POST_configured [OF sample_configured] answering_def up_ok_def
        sample_JSON_parse_def)
  have 2: "body_text sample_JSON_stringify (JsonBody (JObj [(js ''ok'', JBool True)])) = compact_json_text"
    by (simp add: sample_JSON_stringify_def)
  have 3: "compact_json_text \<noteq> upstream_json_text"
    by (simp add: compact_json_text_def upstream_json_text_def js_def)
  from 1 2 3 show ?thesis by (intro conjI)
qed

end
